theory Spec2Isabelle
  imports Main "HOL-Library.Word"
begin

section \<open>Shared vocabulary\<close>

text \<open>
  Host addresses (\<^verbatim>\<open>void*\<close>, \<^verbatim>\<open>char*\<close>) and byte counts (\<^verbatim>\<open>size_t\<close>) are natural
  numbers. A failed \<^verbatim>\<open>assert\<close>, an out-of-range \<^verbatim>\<open>operator[]\<close>, a null dereference and a
  failure reported by an absent callee are values of \<open>error\<close>; a function that can hit one
  returns \<open>error + 'a\<close> with \<open>Inl\<close> for the error.
\<close>

type_synonym addr = nat

datatype error =
    AssertionFailure string
  | OutOfBounds
  | NullDereference
  | CalleeFailure string
  | UnresolvablePointer addr
  | IndirectionBudgetExhausted
  | NoSuchGlobal string

section \<open>The interpreter front end (lib/ExecutionEngine/Interpreter/Interpreter.cpp)\<close>

subsection \<open>Interpreter::create\<close>

text \<open>
  \<^verbatim>\<open>std::error_code\<close>: its conversion to \<^verbatim>\<open>bool\<close> is \<^verbatim>\<open>value() != 0\<close>; \<^verbatim>\<open>message()\<close> is
  the text of the error.
\<close>

record error_code =
  ec_value :: int
  ec_message :: string

definition ec_bool :: "error_code \<Rightarrow> bool" where
  "ec_bool EC = (ec_value EC \<noteq> 0)"

text \<open>
  \<^verbatim>\<open>Module::materializeAllPermanently\<close> and the constructor \<^verbatim>\<open>Interpreter(M, preExecute)\<close>
  call code outside this translation unit, so both are parameters: the first returns the
  error code and the module as materialisation left it, the second the engine built from
  a module. \<open>ErrStr\<close> is a \<^verbatim>\<open>std::string*\<close>: \<open>None\<close> is the null pointer, \<open>Some s\<close> a
  pointer to a string whose content is \<open>s\<close>. The result is the returned
  \<^verbatim>\<open>ExecutionEngine*\<close> (\<open>None\<close> for \<^verbatim>\<open>nullptr\<close>) and the content of \<open>*ErrStr\<close> afterwards.
\<close>

definition create ::
  "('m \<Rightarrow> error_code \<times> 'm) \<Rightarrow> ('m \<Rightarrow> bool \<Rightarrow> 'e) \<Rightarrow> 'm \<Rightarrow> bool \<Rightarrow> string option
     \<Rightarrow> 'e option \<times> string option" where
  "create materializeAllPermanently newInterpreter M preExecute ErrStr =
     (case materializeAllPermanently M of (EC, M') \<Rightarrow>
        if ec_bool EC then
          (None, (case ErrStr of None \<Rightarrow> None | Some old \<Rightarrow> Some (ec_message EC)))
        else
          (Some (newInterpreter M' preExecute), ErrStr))"

subsection \<open>Interpreter::runFunction\<close>

text \<open>
  A function as far as this file looks at it: its name, its section, its linkage, the
  number of parameters of its function type, and the instructions of its body.
\<close>

datatype Linkage = ExternalLinkage | InternalLinkage

datatype Instr = Call string | Ret

record Function =
  getName :: string
  getSection :: string
  getLinkage :: Linkage
  getNumParams :: nat
  instructions :: "Instr list"

text \<open>The interpreter's state: the exit value, and whatever else the engine keeps.\<close>

record 'gv Interpreter =
  ExitValue :: 'gv

text \<open>
  The loop \<^verbatim>\<open>for (unsigned i = 0; i < ArgCount; ++i) ActualArgs.push_back(ArgValues[i])\<close>.
  Reading \<^verbatim>\<open>ArgValues[i]\<close> past the end of the vector is undefined in C++; here it is the
  error \<open>OutOfBounds\<close>.
\<close>

function copyArgs :: "nat \<Rightarrow> nat \<Rightarrow> 'gv list \<Rightarrow> 'gv list \<Rightarrow> error + 'gv list" where
  "copyArgs i ArgCount ArgValues ActualArgs =
     (if i < ArgCount then
        (if i < length ArgValues
         then copyArgs (Suc i) ArgCount ArgValues (ActualArgs @ [ArgValues ! i])
         else Inl OutOfBounds)
      else Inr ActualArgs)"
  by pat_completeness auto
termination
  by (relation "measure (\<lambda>(i, ArgCount, ArgValues, ActualArgs). ArgCount - i)") auto

declare copyArgs.simps [simp del]

text \<open>
  \<^verbatim>\<open>callFunction\<close> and \<^verbatim>\<open>run\<close> live in Execution.cpp, outside this translation unit: they
  are parameters, each returning the next interpreter state or the way it failed to
  return one. \<open>F\<close> is a \<^verbatim>\<open>Function*\<close>; \<open>None\<close> is the null pointer, which the assertion
  at entry rejects. The result is the returned \<^verbatim>\<open>ExitValue\<close> and the final state.
\<close>

definition runFunction ::
  "(Function \<Rightarrow> 'gv list \<Rightarrow> ('gv, 'x) Interpreter_scheme \<Rightarrow> error + ('gv, 'x) Interpreter_scheme)
     \<Rightarrow> (('gv, 'x) Interpreter_scheme \<Rightarrow> error + ('gv, 'x) Interpreter_scheme)
     \<Rightarrow> Function option \<Rightarrow> 'gv list \<Rightarrow> ('gv, 'x) Interpreter_scheme
     \<Rightarrow> error + ('gv \<times> ('gv, 'x) Interpreter_scheme)" where
  "runFunction callFunction run F ArgValues st =
     (case F of
        None \<Rightarrow> Inl (AssertionFailure ''Function *F was null at entry to run()'')
      | Some f \<Rightarrow>
          (case copyArgs 0 (getNumParams f) ArgValues [] of
             Inl e \<Rightarrow> Inl e
           | Inr ActualArgs \<Rightarrow>
               (case callFunction f ActualArgs st of
                  Inl e \<Rightarrow> Inl e
                | Inr st1 \<Rightarrow>
                    (case run st1 of
                       Inl e \<Rightarrow> Inl e
                     | Inr st2 \<Rightarrow> Inr (ExitValue st2, st2)))))"

section \<open>Pre-execution bookkeeping (include/llvm/Cheerp/PreExecute.h)\<close>

subsection \<open>Types and the address map\<close>

text \<open>
  The shapes of \<^verbatim>\<open>llvm::Type\<close> that the bookkeeping and the reconstruction distinguish.
  An integer type carries its width in bytes.
\<close>

datatype Type =
    IntegerTy nat
  | PointerTy
  | ArrayTy nat Type
  | StructTy "Type list"

text \<open>
  Modelled from the spec: \<^verbatim>\<open>llvm::AddressMapBase\<close> is declared outside the files at hand.
  The spec's Address Map is pure bookkeeping: each entry relates a start address to the
  logical object that lives there (a global slot, or a dynamic allocation) and to the
  byte length of the region. \<^verbatim>\<open>map(ptr, size)\<close> registers the region \<open>[ptr, ptr + size)\<close>
  as a new allocation, \<^verbatim>\<open>unmap(ptr)\<close> unregisters what starts at \<open>ptr\<close>, and an address
  resolves to the entry whose region contains it, if there is one.
\<close>

datatype owner = GlobalSlot string | Allocation

record AddressMapEntry =
  start :: addr
  len :: nat
  owner :: owner

type_synonym AddressMap = "AddressMapEntry list"

definition mapping_map :: "addr \<Rightarrow> nat \<Rightarrow> AddressMap \<Rightarrow> AddressMap" where
  "mapping_map ptr sz m = m @ [\<lparr>start = ptr, len = sz, owner = Allocation\<rparr>]"

definition mapping_unmap :: "addr \<Rightarrow> AddressMap \<Rightarrow> AddressMap" where
  "mapping_unmap ptr m = filter (\<lambda>e. start e \<noteq> ptr) m"

definition resolve :: "AddressMap \<Rightarrow> addr \<Rightarrow> AddressMapEntry option" where
  "resolve m a = find (\<lambda>e. start e \<le> a \<and> a < start e + len e) m"

subsection \<open>class Allocator\<close>

text \<open>
  \<open>allocations\<close> is the vector of owning pointers: each entry is the start of a host
  array together with the number of bytes \<^verbatim>\<open>make_unique<char[]>(size)\<close> gave it. An
  array is backed exactly as long as its entry is in the vector. \<open>mapping\<close> is the
  address map the allocator holds a reference to.
\<close>

record Allocator =
  allocations :: "(addr \<times> nat) list"
  mapping :: AddressMap

text \<open>
  \<^verbatim>\<open>allocate(size)\<close>. The host heap chooses where the new array lives; \<open>memory\<close> is the
  address it chose. (A request the host heap cannot serve throws out of \<^verbatim>\<open>make_unique\<close>
  before anything is registered; sizes for which \<^verbatim>\<open>size + 4\<close> would wrap around are among
  those.)
\<close>

definition allocate :: "addr \<Rightarrow> nat \<Rightarrow> Allocator \<Rightarrow> addr \<times> Allocator" where
  "allocate memory sz A =
     (let ret = memory;
          A1 = A\<lparr>mapping := mapping_map ret (sz + 4) (mapping A)\<rparr>;
          A2 = A1\<lparr>allocations := allocations A1 @ [(memory, sz)]\<rparr>
      in (ret, A2))"

text \<open>The loop of \<^verbatim>\<open>deallocate()\<close>: \<^verbatim>\<open>for (auto& a: allocations) mapping.unmap(a.get())\<close>.\<close>

fun unmap_each :: "(addr \<times> nat) list \<Rightarrow> AddressMap \<Rightarrow> AddressMap" where
  "unmap_each [] m = m"
| "unmap_each (a # rest) m = unmap_each rest (mapping_unmap (fst a) m)"

text \<open>
  \<^verbatim>\<open>deallocate()\<close>, which the destructor calls too: unmap every array, then clear the
  vector, which deletes the arrays.
\<close>

definition deallocate :: "Allocator \<Rightarrow> Allocator" where
  "deallocate A =
     (let A1 = A\<lparr>mapping := unmap_each (allocations A) (mapping A)\<rparr>
      in A1\<lparr>allocations := []\<rparr>)"

subsection \<open>class PreExecute: the typed-allocation tracker\<close>

text \<open>
  \<^verbatim>\<open>AllocData\<close>; a default-constructed one has null pointers and size 0. \<open>None\<close> is the
  null pointer. A global variable is known by its name.
\<close>

record AllocData =
  globalValue :: "string option"
  allocType :: "Type option"
  size' :: nat

definition AllocData_default :: AllocData where
  "AllocData_default = \<lparr>globalValue = None, allocType = None, size' = 0\<rparr>"

text \<open>
  \<^verbatim>\<open>std::map::insert\<close> of a key-value pair: a no-op when the key is present already.
\<close>

definition std_map_insert :: "'k \<Rightarrow> 'v \<Rightarrow> ('k \<rightharpoonup> 'v) \<Rightarrow> ('k \<rightharpoonup> 'v)" where
  "std_map_insert k v m = (case m k of None \<Rightarrow> m(k \<mapsto> v) | Some present \<Rightarrow> m)"

text \<open>
  The fields of the pass that its inline members touch. \<open>allocator\<close> is a
  \<^verbatim>\<open>unique_ptr\<close>: \<open>None\<close> when it owns nothing. The reconstructed constants kept in
  \<open>modifiedGlobals\<close> are of a type \<open>'c\<close> this record does not look into.
\<close>

record 'c PreExecute =
  allocator :: "Allocator option"
  modifiedGlobals :: "string \<rightharpoonup> 'c"
  typedAllocations :: "addr \<rightharpoonup> AllocData"

definition recordTypedAllocation ::
  "Type option \<Rightarrow> nat \<Rightarrow> addr \<Rightarrow> ('c, 'x) PreExecute_scheme \<Rightarrow> ('c, 'x) PreExecute_scheme" where
  "recordTypedAllocation type sz buf st =
     (let data = AllocData_default\<lparr>allocType := type, size' := sz\<rparr>
      in st\<lparr>typedAllocations := std_map_insert buf data (typedAllocations st)\<rparr>)"

text \<open>
  \<^verbatim>\<open>releaseTypedAllocation(buf)\<close>, with assertions enabled: a failed \<^verbatim>\<open>assert\<close> aborts.
\<close>

definition releaseTypedAllocation ::
  "addr \<Rightarrow> ('c, 'x) PreExecute_scheme \<Rightarrow> error + ('c, 'x) PreExecute_scheme" where
  "releaseTypedAllocation buf st =
     (case typedAllocations st buf of
        None \<Rightarrow> Inl (AssertionFailure ''There is no typed allocation recorded with this address'')
      | Some it \<Rightarrow> Inr (st\<lparr>typedAllocations := (typedAllocations st)(buf := None)\<rparr>))"

subsection \<open>What interpreted code does to the bookkeeping during one constructor\<close>

text \<open>
  A constructor under interpretation reaches the bookkeeping through three calls: an
  allocation (the host heap handing out \<open>memory\<close>), the recording of a typed allocation
  and its release when the code frees the buffer. The class has no call that gives a
  single array back to the allocator. A call through a null \<open>allocator\<close> is a null
  dereference.
\<close>

datatype request =
    Allocate addr nat
  | RecordTyped "Type option" nat addr
  | ReleaseTyped addr

fun request_step ::
  "request \<Rightarrow> ('c, 'x) PreExecute_scheme \<Rightarrow> error + ('c, 'x) PreExecute_scheme" where
  "request_step (Allocate memory sz) st =
     (case allocator st of
        None \<Rightarrow> Inl NullDereference
      | Some A \<Rightarrow> Inr (st\<lparr>allocator := Some (snd (allocate memory sz A))\<rparr>))"
| "request_step (RecordTyped type sz buf) st = Inr (recordTypedAllocation type sz buf st)"
| "request_step (ReleaseTyped buf) st = releaseTypedAllocation buf st"

fun requests ::
  "request list \<Rightarrow> ('c, 'x) PreExecute_scheme \<Rightarrow> error + ('c, 'x) PreExecute_scheme" where
  "requests [] st = Inr st"
| "requests (r # rs) st =
     (case request_step r st of Inl e \<Rightarrow> Inl e | Inr st' \<Rightarrow> requests rs st')"

text \<open>The arrays a list of requests asks the allocator for, in order.\<close>

fun allocated :: "request list \<Rightarrow> (addr \<times> nat) list" where
  "allocated [] = []"
| "allocated (Allocate memory sz # rs) = (memory, sz) # allocated rs"
| "allocated (r # rs) = allocated rs"

text \<open>
  The end of a session: the pass gives up its allocator, whose destructor runs
  \<open>deallocate\<close>. The result is the allocator as its destructor left it.
\<close>

definition session_end :: "('c, 'x) PreExecute_scheme \<Rightarrow> Allocator option" where
  "session_end st = map_option deallocate (allocator st)"

section \<open>Calling the global constructors on start
  (lib/Target/CheerpWasmBackend/CheerpWasmBackend.cpp)\<close>

text \<open>
  Constants: the kinds an entry of the global-constructors list is made of, and the
  kinds the reconstruction of an initializer produces (a reference to a global at a
  byte offset, and a reference to a hidden global synthesized with a type and an
  initializer).
\<close>

datatype Constant =
    ConstantInt nat
  | ConstantPointerNull
  | ConstantFunction Function
  | GlobalReference string nat
  | HiddenGlobalReference Type Constant
  | ConstantArray "Constant list"
  | ConstantStruct "Constant list"

text \<open>
  \<^verbatim>\<open>getAggregateElement(i)\<close> of a struct constant with operands \<open>ops\<close>: the null pointer
  when there is no such element.
\<close>

definition getAggregateElement :: "Constant list \<Rightarrow> nat \<Rightarrow> Constant option" where
  "getAggregateElement ops i = (if i < length ops then Some (ops ! i) else None)"

text \<open>
  A module, as far as the pass looks at it: its functions, in order, and the named
  metadata node \<^verbatim>\<open>jsexported_methods\<close> (\<open>None\<close> when the module has no such node), whose
  operands are tuples of getFunctionList.
\<close>

record Module =
  getFunctionList :: "Function list"
  jsexported_methods :: "Function list list option"

text \<open>
  The loop over the operands of the constructors array. \<open>block\<close> is the entry block
  the builder appends to. Each of the two assertions is a failure.
\<close>

fun createCalls :: "Constant list \<Rightarrow> Instr list \<Rightarrow> error + Instr list" where
  "createCalls [] block = Inr block"
| "createCalls (it # rest) block =
     (case it of
        ConstantStruct cs \<Rightarrow>
          (case getAggregateElement cs 1 of
             Some (ConstantFunction F) \<Rightarrow>
               if getSection F \<noteq> ''asmjs'' then createCalls rest block
               else createCalls rest (block @ [Call (getName F)])
           | _ \<Rightarrow> Inl (AssertionFailure ''isa<Function>(cs->getAggregateElement(1))''))
      | _ \<Rightarrow> Inl (AssertionFailure ''isa<ConstantStruct>(it)''))"

text \<open>
  \<^verbatim>\<open>CallGlobalConstructorsOnStartPass::runOnModule\<close>. \<open>WasmLoader\<close> is the command-line
  option of that name. \<^verbatim>\<open>cheerp::ModuleGlobalConstructors\<close> is declared in a header outside
  the files at hand, so it is a parameter: it returns the operands of the module's
  constructors array, or the null pointer. The result is the returned flag and the
  module as the pass left it. The stub is created in the module before the loop runs;
  a failed assertion aborts the compiler, so no module is left to look at then. The
  symbol table would rename the stub if the module had a \<^verbatim>\<open>_start\<close> already; the name is
  kept as given here.
\<close>

definition runOnModule ::
  "string \<Rightarrow> (Module \<Rightarrow> Constant list option) \<Rightarrow> Module \<Rightarrow> error + (bool \<times> Module)" where
  "runOnModule WasmLoader ModuleGlobalConstructors M =
     (if WasmLoader \<noteq> [] then Inr (False, M)
      else
        (case ModuleGlobalConstructors M of
           None \<Rightarrow> Inl NullDereference
         | Some constructors \<Rightarrow>
             if constructors = [] then Inr (False, M)
             else
               (case createCalls constructors [] of
                  Inl e \<Rightarrow> Inl e
                | Inr block \<Rightarrow>
                    (let stub = \<lparr>getName = ''_start'', getSection = ''asmjs'',
                                 getLinkage = InternalLinkage, getNumParams = 0,
                                 instructions = block @ [Ret]\<rparr>
                     in case jsexported_methods M of
                          None \<Rightarrow>
                            Inl (AssertionFailure ''create jsexported_methods metadata node'')
                        | Some node \<Rightarrow>
                            Inr (False, M\<lparr>getFunctionList := getFunctionList M @ [stub],
                                          jsexported_methods := Some (node @ [[stub]])\<rparr>)))))"

text \<open>
  The function an entry of the constructors list registers: the second field of the
  entry's struct.
\<close>

definition constructorFunction :: "Constant \<Rightarrow> Function option" where
  "constructorFunction it =
     (case it of
        ConstantStruct cs \<Rightarrow>
          (case getAggregateElement cs 1 of Some (ConstantFunction F) \<Rightarrow> Some F | _ \<Rightarrow> None)
      | _ \<Rightarrow> None)"

text \<open>The calls of a function body, in order: the callee of each call instruction.\<close>

definition callees :: "Instr list \<Rightarrow> string list" where
  "callees body = List.map_filter (\<lambda>i. case i of Call f \<Rightarrow> Some f | Ret \<Rightarrow> None) body"

section \<open>The store listener (include/llvm/ExecutionEngine/ExecutionEngine.h) and the
  store recorder\<close>

text \<open>
  The engine keeps the listener in the field \<open>StoreListener\<close>, a plain function pointer
  (\<open>None\<close> when null). Such a function acts on the state of the program around it,
  here of type \<open>'s\<close>.
\<close>

record 's ExecutionEngine =
  StoreListener :: "(addr \<Rightarrow> 's \<Rightarrow> 's) option"

definition InstallStoreListener ::
  "(addr \<Rightarrow> 's \<Rightarrow> 's) option \<Rightarrow> ('s, 'x) ExecutionEngine_scheme \<Rightarrow> ('s, 'x) ExecutionEngine_scheme" where
  "InstallStoreListener P EE = EE\<lparr>StoreListener := P\<rparr>"

text \<open>
  Modelled from the spec: the engine's store instruction is outside the files at hand.
  The execution capability reports every memory write of a run to the recorder, one call
  per write, in the order of the writes; with no listener installed nothing is reported.
\<close>

fun reportStores :: "('s, 'x) ExecutionEngine_scheme \<Rightarrow> addr list \<Rightarrow> 's \<Rightarrow> 's" where
  "reportStores EE [] st = st"
| "reportStores EE (Addr # rest) st =
     reportStores EE rest (case StoreListener EE of None \<Rightarrow> st | Some P \<Rightarrow> P Addr st)"

text \<open>
  Modelled from the spec: the body of \<^verbatim>\<open>PreExecute::recordStore\<close> is outside the files at
  hand, and the class declaration has no member that holds written addresses. The spec's
  StoreLog is the set of addresses written during one run, kept by the recorder, which
  deduplicates by itself; recording only adds to the log.
\<close>

record 'c Recorder = "'c PreExecute" +
  StoreLog :: "addr list"

definition recordStore :: "addr \<Rightarrow> ('c, 'x) Recorder_scheme \<Rightarrow> ('c, 'x) Recorder_scheme" where
  "recordStore Addr st =
     (if Addr \<in> set (StoreLog st) then st else st\<lparr>StoreLog := StoreLog st @ [Addr]\<rparr>)"

section \<open>Reconstruction of constants from memory, and the commit\<close>

text \<open>
  Modelled from the spec: \<^verbatim>\<open>PreExecute::computeInitializerFromMemory\<close>, \<^verbatim>\<open>runOnConstructor\<close>
  and \<^verbatim>\<open>runOnModule\<close> are only declared in the files at hand. What follows is the
  Constant Reconstructor and the Orchestrator's commit of the spec.
\<close>

subsection \<open>What the reconstruction reads\<close>








subsection \<open>The Constant Reconstructor\<close>




subsection \<open>The Orchestrator's commit\<close>













subsection \<open>A concrete memory image\<close>







section \<open>Properties of the interpreter front end\<close>

lemma copyArgs_take:
  "i \<le> n \<Longrightarrow> n \<le> length xs \<Longrightarrow> copyArgs i n xs acc = Inr (acc @ take (n - i) (drop i xs))"
proof (induction i n xs acc rule: copyArgs.induct)
  case (1 i ArgCount ArgValues ActualArgs)
  show ?case
  proof (cases "i < ArgCount")
    case True
    with "1.prems" have inb: "i < length ArgValues" by simp
    from True obtain k where k: "ArgCount - i = Suc k" "ArgCount - Suc i = k"
      by (metis Suc_diff_Suc)
    have "copyArgs i ArgCount ArgValues ActualArgs =
            copyArgs (Suc i) ArgCount ArgValues (ActualArgs @ [ArgValues ! i])"
      using True inb by (subst copyArgs.simps) simp
    also have "\<dots> = Inr ((ActualArgs @ [ArgValues ! i]) @ take k (drop (Suc i) ArgValues))"
      using "1.IH" [OF True inb] True "1.prems" k by simp
    also have "(ActualArgs @ [ArgValues ! i]) @ take k (drop (Suc i) ArgValues) =
                 ActualArgs @ take (Suc k) (drop i ArgValues)"
      using inb by (simp add: Cons_nth_drop_Suc [symmetric])
    finally show ?thesis using k by simp
  next
    case False
    with "1.prems" have "ArgCount - i = 0" by simp
    with False show ?thesis by (subst copyArgs.simps) simp
  qed
qed

lemma copyArgs_short:
  "i \<le> length xs \<Longrightarrow> length xs < n \<Longrightarrow> copyArgs i n xs acc = Inl OutOfBounds"
proof (induction i n xs acc rule: copyArgs.induct)
  case (1 i ArgCount ArgValues ActualArgs)
  show ?case
  proof (cases "i < length ArgValues")
    case True
    with "1.prems" have lt: "i < ArgCount" by simp
    have "copyArgs i ArgCount ArgValues ActualArgs =
            copyArgs (Suc i) ArgCount ArgValues (ActualArgs @ [ArgValues ! i])"
      using True lt by (subst copyArgs.simps) simp
    also have "\<dots> = Inl OutOfBounds"
      using "1.IH" [OF lt True] True "1.prems" by simp
    finally show ?thesis .
  next
    case False
    with "1.prems" show ?thesis by (subst copyArgs.simps) simp
  qed
qed

text \<open>
  C9. For a non-null function \<open>f\<close> and an argument vector at least as long as \<open>f\<close> has
  parameters, \<open>runFunction\<close> passes \<^verbatim>\<open>callFunction\<close> exactly the first
  \<open>getNumParams f\<close> elements of \<open>ArgValues\<close> (the surplus is dropped without an error),
  then runs the interpreter, and what it returns is the \<open>ExitValue\<close> of the state the
  run ended in.
\<close>

theorem runFunction_truncates_args:
  assumes "getNumParams f \<le> length ArgValues"
  shows "runFunction callFunction run (Some f) ArgValues st =
           (case callFunction f (take (getNumParams f) ArgValues) st of
              Inl e \<Rightarrow> Inl e
            | Inr st1 \<Rightarrow> (case run st1 of Inl e \<Rightarrow> Inl e | Inr st2 \<Rightarrow> Inr (ExitValue st2, st2)))"
proof -
  have "copyArgs 0 (getNumParams f) ArgValues [] = Inr (take (getNumParams f) ArgValues)"
    using copyArgs_take [of 0 "getNumParams f" ArgValues "[]"] assms by simp
  then show ?thesis by (simp add: runFunction_def)
qed

theorem runFunction_truncates_args_witness:
  "runFunction (\<lambda>f args st. Inr (st\<lparr>ExitValue := sum_list args\<rparr>)) Inr
     (Some \<lparr>getName = ''main'', getSection = [], getLinkage = ExternalLinkage,
            getNumParams = 1, instructions = [Ret]\<rparr>)
     [5, 7, 9 :: nat] \<lparr>ExitValue = 0\<rparr>
   = Inr (5, \<lparr>ExitValue = 5\<rparr>)"
  using runFunction_truncates_args
    [of "\<lparr>getName = ''main'', getSection = [], getLinkage = ExternalLinkage,
          getNumParams = 1, instructions = [Ret]\<rparr>"
        "[5, 7, 9 :: nat]"
        "\<lambda>f args st. Inr (st\<lparr>ExitValue := sum_list args\<rparr>)" Inr "\<lparr>ExitValue = 0\<rparr>"]
  by simp

text \<open>
  C10. When materialising the module reports an error, \<open>create\<close> returns the null
  pointer and builds no interpreter (the result does not mention the constructor); the
  error's message is written to \<open>*ErrStr\<close> when \<open>ErrStr\<close> points to a string, and
  nothing is written through a null \<open>ErrStr\<close>. When materialising succeeds, \<open>create\<close>
  returns the engine built from the materialised module and leaves \<open>*ErrStr\<close> alone.
\<close>

theorem create_null_on_materialize_error:
  assumes "materializeAllPermanently M = (EC, M')"
  shows "(ec_bool EC \<longrightarrow>
            create materializeAllPermanently newInterpreter M preExecute None = (None, None) \<and>
            create materializeAllPermanently newInterpreter M preExecute (Some old)
              = (None, Some (ec_message EC))) \<and>
         (\<not> ec_bool EC \<longrightarrow>
            create materializeAllPermanently newInterpreter M preExecute ErrStr
              = (Some (newInterpreter M' preExecute), ErrStr) \<and>
            fst (create materializeAllPermanently newInterpreter M preExecute ErrStr) \<noteq> None)"
  using assms by (simp add: create_def)

theorem create_null_on_materialize_error_witness:
  "create (\<lambda>M::nat. (\<lparr>ec_value = 5, ec_message = ''Input/output error''\<rparr>, M))
      (\<lambda>M preExecute. (M, preExecute)) 3 True None = (None, None) \<and>
   create (\<lambda>M::nat. (\<lparr>ec_value = 5, ec_message = ''Input/output error''\<rparr>, M))
      (\<lambda>M preExecute. (M, preExecute)) 3 True (Some ''stale'')
     = (None, Some ''Input/output error'') \<and>
   create (\<lambda>M::nat. (\<lparr>ec_value = 0, ec_message = ''Success''\<rparr>, Suc M))
      (\<lambda>M preExecute. (M, preExecute)) 3 True (Some ''stale'')
     = (Some (4, True), Some ''stale'')"
proof -
  have bad: "ec_bool \<lparr>ec_value = 5, ec_message = ''Input/output error''\<rparr>"
    by (simp add: ec_bool_def)
  have good: "\<not> ec_bool \<lparr>ec_value = 0, ec_message = ''Success''\<rparr>"
    by (simp add: ec_bool_def)
  from create_null_on_materialize_error
         [where materializeAllPermanently =
                  "\<lambda>M::nat. (\<lparr>ec_value = 5, ec_message = ''Input/output error''\<rparr>, M)"
            and M = 3 and M' = 3
            and EC = "\<lparr>ec_value = 5, ec_message = ''Input/output error''\<rparr>"
            and newInterpreter = "\<lambda>M preExecute. (M, preExecute)"
            and preExecute = True and old = "''stale''"]
       create_null_on_materialize_error
         [where materializeAllPermanently =
                  "\<lambda>M::nat. (\<lparr>ec_value = 0, ec_message = ''Success''\<rparr>, Suc M)"
            and M = 3 and M' = 4
            and EC = "\<lparr>ec_value = 0, ec_message = ''Success''\<rparr>"
            and newInterpreter = "\<lambda>M preExecute. (M, preExecute)"
            and preExecute = True and ErrStr = "Some ''stale''"]
       bad good
  show ?thesis by simp
qed

section \<open>Properties of the allocator\<close>

lemma resolve_append:
  "resolve (m @ [e]) a =
     (case resolve m a of
        Some e' \<Rightarrow> Some e'
      | None \<Rightarrow> if start e \<le> a \<and> a < start e + len e then Some e else None)"
  by (induction m) (auto simp: resolve_def)

lemma unmap_each_filter:
  "unmap_each blocks m = filter (\<lambda>e. start e \<notin> fst ` set blocks) m"
proof (induction blocks arbitrary: m)
  case Nil
  show ?case by simp
next
  case (Cons a rest)
  have "unmap_each (a # rest) m = filter (\<lambda>e. start e \<notin> fst ` set rest) (mapping_unmap (fst a) m)"
    using Cons.IH by simp
  also have "\<dots> = filter (\<lambda>e. start e \<notin> fst ` set (a # rest)) m"
    by (auto simp: mapping_unmap_def intro!: filter_cong)
  finally show ?case .
qed

text \<open>The entry that \<open>allocate\<close> registers for an array of \<open>sz\<close> bytes at \<open>memory\<close>.\<close>

lemma allocate_eq:
  "allocate memory sz A =
     (memory, A\<lparr>mapping := mapping A @ [\<lparr>start = memory, len = sz + 4, owner = Allocation\<rparr>],
                allocations := allocations A @ [(memory, sz)]\<rparr>)"
  by (simp add: allocate_def mapping_map_def Let_def)

text \<open>
  C2, as stated, fails: asked for 8 bytes at address 100, \<open>allocate\<close> backs 8 bytes
  but registers 12, so that address 108, which is past the array, resolves to the new
  region, and the entry is not the region \<open>[100, 108)\<close>.
\<close>

theorem allocate_registers_exact_size_counterexample:
  "fst (allocate 100 8 \<lparr>allocations = [], mapping = []\<rparr>) = 100 \<and>
   allocations (snd (allocate 100 8 \<lparr>allocations = [], mapping = []\<rparr>)) = [(100, 8)] \<and>
   mapping (snd (allocate 100 8 \<lparr>allocations = [], mapping = []\<rparr>))
     \<noteq> [\<lparr>start = 100, len = 8, owner = Allocation\<rparr>] \<and>
   mapping (snd (allocate 100 8 \<lparr>allocations = [], mapping = []\<rparr>))
     = [\<lparr>start = 100, len = 12, owner = Allocation\<rparr>] \<and>
   resolve (mapping (snd (allocate 100 8 \<lparr>allocations = [], mapping = []\<rparr>))) 108
     = Some \<lparr>start = 100, len = 12, owner = Allocation\<rparr>"
  by (simp add: allocate_eq resolve_def)

text \<open>
  C2, amended. For every size \<open>sz\<close>, \<open>allocate\<close> returns the start of the new array,
  owns exactly \<open>sz\<close> bytes there, and appends one entry to the address map: the region
  \<open>[memory, memory + sz + 4)\<close>, four bytes longer than the array, as a new allocation.
  An address that resolved before resolves as before; an address that did not resolves
  afterwards exactly when it lies in that region.
\<close>

theorem allocate_registers_size_plus_4:
  "fst (allocate memory sz A) = memory \<and>
   allocations (snd (allocate memory sz A)) = allocations A @ [(memory, sz)] \<and>
   mapping (snd (allocate memory sz A))
     = mapping A @ [\<lparr>start = memory, len = sz + 4, owner = Allocation\<rparr>] \<and>
   (\<forall>a. resolve (mapping A) a \<noteq> None \<longrightarrow>
          resolve (mapping (snd (allocate memory sz A))) a = resolve (mapping A) a) \<and>
   (\<forall>a. resolve (mapping A) a = None \<longrightarrow>
          resolve (mapping (snd (allocate memory sz A))) a =
            (if memory \<le> a \<and> a < memory + sz + 4
             then Some \<lparr>start = memory, len = sz + 4, owner = Allocation\<rparr> else None))"
  by (auto simp: allocate_eq resolve_append)

theorem allocate_registers_size_plus_4_witness:
  "fst (allocate 200 16 \<lparr>allocations = [(100, 8)],
                          mapping = [\<lparr>start = 100, len = 12, owner = Allocation\<rparr>]\<rparr>) = 200 \<and>
   resolve (mapping (snd (allocate 200 16 \<lparr>allocations = [(100, 8)],
                          mapping = [\<lparr>start = 100, len = 12, owner = Allocation\<rparr>]\<rparr>))) 104
     = Some \<lparr>start = 100, len = 12, owner = Allocation\<rparr> \<and>
   resolve (mapping (snd (allocate 200 16 \<lparr>allocations = [(100, 8)],
                          mapping = [\<lparr>start = 100, len = 12, owner = Allocation\<rparr>]\<rparr>))) 219
     = Some \<lparr>start = 200, len = 20, owner = Allocation\<rparr> \<and>
   resolve (mapping (snd (allocate 200 16 \<lparr>allocations = [(100, 8)],
                          mapping = [\<lparr>start = 100, len = 12, owner = Allocation\<rparr>]\<rparr>))) 220
     = None"
proof -
  let ?A = "\<lparr>allocations = [(100, 8)],
             mapping = [\<lparr>start = 100, len = 12, owner = Allocation\<rparr>]\<rparr>"
  have old: "resolve (mapping ?A) 104 = Some \<lparr>start = 100, len = 12, owner = Allocation\<rparr>"
    and new: "resolve (mapping ?A) 219 = None" "resolve (mapping ?A) 220 = None"
    by (simp_all add: resolve_def)
  note T = allocate_registers_size_plus_4 [of 200 16 ?A]
  note kept = T [THEN conjunct2, THEN conjunct2, THEN conjunct2, THEN conjunct1, rule_format]
  note fresh = T [THEN conjunct2, THEN conjunct2, THEN conjunct2, THEN conjunct2, rule_format]
  have "resolve (mapping (snd (allocate 200 16 ?A))) 104 = resolve (mapping ?A) 104"
    using kept [of 104] old by simp
  moreover have "resolve (mapping (snd (allocate 200 16 ?A))) 219
                   = Some \<lparr>start = 200, len = 20, owner = Allocation\<rparr>"
    using fresh [of 219] new by simp
  moreover have "resolve (mapping (snd (allocate 200 16 ?A))) 220 = None"
    using fresh [of 220] new by simp
  ultimately show ?thesis using T old by simp
qed

lemma request_step_allocator:
  assumes "request_step r st = Inr st'" and "allocator st = Some A"
  shows "allocator st' =
           Some (A\<lparr>mapping := mapping A @
                     map (\<lambda>b. \<lparr>start = fst b, len = snd b + 4, owner = Allocation\<rparr>) (allocated [r]),
                   allocations := allocations A @ allocated [r]\<rparr>)"
proof (cases r)
  case (Allocate memory sz)
  with assms show ?thesis by (auto simp: allocate_eq)
next
  case (RecordTyped type sz buf)
  with assms show ?thesis by (auto simp: recordTypedAllocation_def)
next
  case (ReleaseTyped buf)
  with assms show ?thesis
    by (auto simp: releaseTypedAllocation_def split: option.splits)
qed

lemma allocated_Cons: "allocated (r # rs) = allocated [r] @ allocated rs"
  by (cases r) simp_all

lemma requests_allocator:
  "requests rs st = Inr st' \<Longrightarrow> allocator st = Some A \<Longrightarrow>
   allocator st' =
     Some (A\<lparr>mapping := mapping A @
               map (\<lambda>b. \<lparr>start = fst b, len = snd b + 4, owner = Allocation\<rparr>) (allocated rs),
             allocations := allocations A @ allocated rs\<rparr>)"
proof (induction rs arbitrary: st A)
  case Nil
  then show ?case by simp
next
  case (Cons r rs)
  from Cons.prems(1) obtain st1 where
    step: "request_step r st = Inr st1" and rest: "requests rs st1 = Inr st'"
    by (auto split: sum.splits)
  let ?A1 = "A\<lparr>mapping := mapping A @
                map (\<lambda>b. \<lparr>start = fst b, len = snd b + 4, owner = Allocation\<rparr>) (allocated [r]),
              allocations := allocations A @ allocated [r]\<rparr>"
  have a1: "allocator st1 = Some ?A1"
    using request_step_allocator [OF step Cons.prems(2)] .
  show ?case
    using Cons.IH [OF rest a1] by (simp add: allocated_Cons [of r rs])
qed

lemma filter_new_entries:
  "filter (\<lambda>e. start e \<notin> fst ` (S \<union> set bs))
     (map (\<lambda>b. \<lparr>start = fst b, len = snd b + 4, owner = Allocation\<rparr>) bs) = []"
  by (induction bs) auto

text \<open>
  C4. Take any run of a constructor's requests that completes: any number of
  allocations, typed-allocation records, and releases by the interpreted code. When the
  session ends, the allocator owns no array any more, and the address map is what it
  was before the run without the entries that start at an address this allocator handed
  out: none of the allocator's regions is registered any longer, whether the code
  released it or not.
\<close>

theorem session_end_unregisters_every_allocation:
  assumes "requests rs st = Inr st'" and "allocator st = Some A"
  shows "session_end st' =
           Some \<lparr>allocations = [],
                 mapping = filter (\<lambda>e. start e \<notin> fst ` set (allocations A @ allocated rs))
                             (mapping A)\<rparr> \<and>
         (\<forall>A'. session_end st' = Some A' \<longrightarrow>
            (\<forall>b \<in> set (allocations A @ allocated rs).
               \<forall>e \<in> set (mapping A'). start e \<noteq> fst b))"
proof -
  let ?new = "map (\<lambda>b. \<lparr>start = fst b, len = snd b + 4, owner = Allocation\<rparr>) (allocated rs)"
  have al: "allocator st' =
              Some (A\<lparr>mapping := mapping A @ ?new, allocations := allocations A @ allocated rs\<rparr>)"
    using requests_allocator [OF assms] .
  have gone: "filter (\<lambda>e. start e \<notin> fst ` set (allocations A @ allocated rs)) ?new = []"
    using filter_new_entries [of "set (allocations A)" "allocated rs"] by simp
  have eq: "session_end st' =
              Some \<lparr>allocations = [],
                    mapping = filter (\<lambda>e. start e \<notin> fst ` set (allocations A @ allocated rs))
                                (mapping A)\<rparr>"
    using al gone by (simp add: session_end_def deallocate_def unmap_each_filter Let_def)
  show ?thesis
  proof (intro conjI allI impI ballI)
    show "session_end st' =
            Some \<lparr>allocations = [],
                  mapping = filter (\<lambda>e. start e \<notin> fst ` set (allocations A @ allocated rs))
                              (mapping A)\<rparr>"
      by (rule eq)
  next
    fix A' b e
    assume "session_end st' = Some A'"
      and b: "b \<in> set (allocations A @ allocated rs)"
      and e: "e \<in> set (mapping A')"
    with eq have "start e \<notin> fst ` set (allocations A @ allocated rs)" by auto
    with b show "start e \<noteq> fst b" by auto
  qed
qed

theorem session_end_unregisters_every_allocation_witness:
  "\<not> isl (requests
       [Allocate 100 8, RecordTyped (Some (IntegerTy 4)) 8 100, Allocate 200 16, ReleaseTyped 100]
       \<lparr>allocator = Some \<lparr>allocations = [],
                           mapping = [\<lparr>start = 16, len = 4, owner = GlobalSlot ''g''\<rparr>]\<rparr>,
         modifiedGlobals = (Map.empty :: string \<rightharpoonup> nat),
         typedAllocations = Map.empty\<rparr>) \<and>
   session_end (projr (requests
       [Allocate 100 8, RecordTyped (Some (IntegerTy 4)) 8 100, Allocate 200 16, ReleaseTyped 100]
       \<lparr>allocator = Some \<lparr>allocations = [],
                           mapping = [\<lparr>start = 16, len = 4, owner = GlobalSlot ''g''\<rparr>]\<rparr>,
         modifiedGlobals = (Map.empty :: string \<rightharpoonup> nat),
         typedAllocations = Map.empty\<rparr>))
     = Some \<lparr>allocations = [],
             mapping = [\<lparr>start = 16, len = 4, owner = GlobalSlot ''g''\<rparr>]\<rparr>"
proof -
  let ?A = "\<lparr>allocations = [], mapping = [\<lparr>start = 16, len = 4, owner = GlobalSlot ''g''\<rparr>]\<rparr>"
  let ?st = "\<lparr>allocator = Some ?A, modifiedGlobals = (Map.empty :: string \<rightharpoonup> nat),
              typedAllocations = Map.empty\<rparr>"
  let ?rs = "[Allocate 100 8, RecordTyped (Some (IntegerTy 4)) 8 100, Allocate 200 16,
              ReleaseTyped 100]"
  obtain st' where run: "requests ?rs ?st = Inr st'"
    by (simp add: allocate_eq recordTypedAllocation_def releaseTypedAllocation_def
          std_map_insert_def AllocData_default_def)
  have al: "allocator ?st = Some ?A" by simp
  from session_end_unregisters_every_allocation [OF run al] run
  show ?thesis by simp
qed

section \<open>Properties of the typed-allocation tracker\<close>

lemma std_map_insert_present: "m k = Some v' \<Longrightarrow> std_map_insert k v m = m"
  by (simp add: std_map_insert_def)

lemma std_map_insert_absent: "m k = None \<Longrightarrow> std_map_insert k v m = m(k \<mapsto> v)"
  by (simp add: std_map_insert_def)

text \<open>
  C3, as stated, fails: a record whose size disagrees with the registered region is not
  rejected. After \<open>allocate\<close> has backed 8 bytes at address 100 and registered 12, a
  typed allocation of 1000 bytes recorded at 100 is attached as it is.
\<close>

theorem recordTypedAllocation_rejects_size_counterexample:
  "map_option mapping
     (allocator \<lparr>allocator = Some (snd (allocate 100 8 \<lparr>allocations = [], mapping = []\<rparr>)),
                 modifiedGlobals = (Map.empty :: string \<rightharpoonup> nat),
                 typedAllocations = Map.empty\<rparr>)
     = Some [\<lparr>start = 100, len = 12, owner = Allocation\<rparr>] \<and>
   (1000::nat) \<noteq> 12 \<and> (1000::nat) \<noteq> 8 \<and>
   typedAllocations
     (recordTypedAllocation (Some (IntegerTy 4)) 1000 100
        \<lparr>allocator = Some (snd (allocate 100 8 \<lparr>allocations = [], mapping = []\<rparr>)),
          modifiedGlobals = (Map.empty :: string \<rightharpoonup> nat),
          typedAllocations = Map.empty\<rparr>) 100
     = Some \<lparr>globalValue = None, allocType = Some (IntegerTy 4), size' = 1000\<rparr>"
  by (simp add: allocate_eq recordTypedAllocation_def std_map_insert_def AllocData_default_def)

text \<open>
  C3, amended. \<open>recordTypedAllocation\<close> never fails and never looks at the address
  map or at the size of a registered region. When no typed allocation is recorded for
  the address, it attaches the given type and size there, with no global; when one is
  recorded already, the tracker keeps it. Records at other addresses, the allocator and
  the modified globals stay as they were.
\<close>

theorem recordTypedAllocation_attaches_without_size_check:
  "(typedAllocations st buf = None \<longrightarrow>
      typedAllocations (recordTypedAllocation type sz buf st) buf
        = Some \<lparr>globalValue = None, allocType = type, size' = sz\<rparr>) \<and>
   (typedAllocations st buf \<noteq> None \<longrightarrow>
      typedAllocations (recordTypedAllocation type sz buf st) buf = typedAllocations st buf) \<and>
   (\<forall>a. a \<noteq> buf \<longrightarrow>
      typedAllocations (recordTypedAllocation type sz buf st) a = typedAllocations st a) \<and>
   allocator (recordTypedAllocation type sz buf st) = allocator st \<and>
   modifiedGlobals (recordTypedAllocation type sz buf st) = modifiedGlobals st"
  by (auto simp: recordTypedAllocation_def std_map_insert_def AllocData_default_def
           split: option.splits)

theorem recordTypedAllocation_attaches_without_size_check_witness:
  "typedAllocations
     (recordTypedAllocation (Some (ArrayTy 3 (IntegerTy 4))) 7 100
        \<lparr>allocator = None, modifiedGlobals = (Map.empty :: string \<rightharpoonup> nat),
          typedAllocations = [200 \<mapsto> \<lparr>globalValue = None, allocType = Some PointerTy, size' = 4\<rparr>]\<rparr>)
     100
     = Some \<lparr>globalValue = None, allocType = Some (ArrayTy 3 (IntegerTy 4)), size' = 7\<rparr> \<and>
   typedAllocations
     (recordTypedAllocation (Some (ArrayTy 3 (IntegerTy 4))) 7 200
        \<lparr>allocator = None, modifiedGlobals = (Map.empty :: string \<rightharpoonup> nat),
          typedAllocations = [200 \<mapsto> \<lparr>globalValue = None, allocType = Some PointerTy, size' = 4\<rparr>]\<rparr>)
     200
     = Some \<lparr>globalValue = None, allocType = Some PointerTy, size' = 4\<rparr> \<and>
   typedAllocations
     (recordTypedAllocation (Some (ArrayTy 3 (IntegerTy 4))) 7 100
        \<lparr>allocator = None, modifiedGlobals = (Map.empty :: string \<rightharpoonup> nat),
          typedAllocations = [200 \<mapsto> \<lparr>globalValue = None, allocType = Some PointerTy, size' = 4\<rparr>]\<rparr>)
     200
     = Some \<lparr>globalValue = None, allocType = Some PointerTy, size' = 4\<rparr>"
proof -
  let ?st = "\<lparr>allocator = None, modifiedGlobals = (Map.empty :: string \<rightharpoonup> nat),
    typedAllocations = [200 \<mapsto> \<lparr>globalValue = None, allocType = Some PointerTy, size' = 4\<rparr>]\<rparr>"
  note fresh = recordTypedAllocation_attaches_without_size_check
                 [of ?st 100 "Some (ArrayTy 3 (IntegerTy 4))" 7]
  note again = recordTypedAllocation_attaches_without_size_check
                 [of ?st 200 "Some (ArrayTy 3 (IntegerTy 4))" 7]
  have "typedAllocations ?st 100 = None" by simp
  with fresh have c1:
    "typedAllocations (recordTypedAllocation (Some (ArrayTy 3 (IntegerTy 4))) 7 100 ?st) 100
       = Some \<lparr>globalValue = None, allocType = Some (ArrayTy 3 (IntegerTy 4)), size' = 7\<rparr>"
    by blast
  have "typedAllocations ?st 200 \<noteq> None" by simp
  with again have c2:
    "typedAllocations (recordTypedAllocation (Some (ArrayTy 3 (IntegerTy 4))) 7 200 ?st) 200
       = typedAllocations ?st 200"
    by blast
  have "(200::nat) \<noteq> 100" by simp
  with fresh have c3:
    "typedAllocations (recordTypedAllocation (Some (ArrayTy 3 (IntegerTy 4))) 7 100 ?st) 200
       = typedAllocations ?st 200"
    by blast
  from c1 c2 c3 show ?thesis by simp
qed

text \<open>
  C8. Once an address has a typed-allocation record, recording again at that address,
  with whatever type and size, leaves the whole state as it was and signals nothing;
  so recording twice in a row is the same as recording once.
\<close>

theorem recordTypedAllocation_keeps_first_record:
  "(typedAllocations st buf \<noteq> None \<longrightarrow> recordTypedAllocation type sz buf st = st) \<and>
   recordTypedAllocation type2 sz2 buf (recordTypedAllocation type sz buf st)
     = recordTypedAllocation type sz buf st"
proof
  show "typedAllocations st buf \<noteq> None \<longrightarrow> recordTypedAllocation type sz buf st = st"
    by (auto simp: recordTypedAllocation_def std_map_insert_present)
next
  have "typedAllocations (recordTypedAllocation type sz buf st) buf \<noteq> None"
    by (simp add: recordTypedAllocation_def std_map_insert_def split: option.splits)
  then obtain d where d: "typedAllocations (recordTypedAllocation type sz buf st) buf = Some d"
    by blast
  show "recordTypedAllocation type2 sz2 buf (recordTypedAllocation type sz buf st)
          = recordTypedAllocation type sz buf st"
    using d by (subst (1) recordTypedAllocation_def) (simp add: std_map_insert_def)
qed

theorem recordTypedAllocation_keeps_first_record_witness:
  "recordTypedAllocation (Some (ArrayTy 3 (IntegerTy 4))) 7 200
     \<lparr>allocator = None, modifiedGlobals = (Map.empty :: string \<rightharpoonup> nat),
       typedAllocations = [200 \<mapsto> \<lparr>globalValue = None, allocType = Some PointerTy, size' = 4\<rparr>]\<rparr>
   = \<lparr>allocator = None, modifiedGlobals = (Map.empty :: string \<rightharpoonup> nat),
       typedAllocations = [200 \<mapsto> \<lparr>globalValue = None, allocType = Some PointerTy, size' = 4\<rparr>]\<rparr>"
proof -
  let ?st = "\<lparr>allocator = None, modifiedGlobals = (Map.empty :: string \<rightharpoonup> nat),
    typedAllocations = [200 \<mapsto> \<lparr>globalValue = None, allocType = Some PointerTy, size' = 4\<rparr>]\<rparr>"
  have "typedAllocations ?st 200 \<noteq> None" by simp
  with recordTypedAllocation_keeps_first_record [of ?st 200 "Some (ArrayTy 3 (IntegerTy 4))" 7]
  show ?thesis by blast
qed

text \<open>
  C5. \<open>releaseTypedAllocation\<close> hits its assertion exactly when no typed allocation is
  recorded for the address. When one is recorded, the call succeeds and removes that
  record and nothing else: the address has no record afterwards, every other address
  keeps its record, and the allocator and the modified globals are untouched.
\<close>

theorem releaseTypedAllocation_asserts_iff_unrecorded:
  "isl (releaseTypedAllocation buf st) = (typedAllocations st buf = None) \<and>
   (typedAllocations st buf = None \<longrightarrow>
      releaseTypedAllocation buf st
        = Inl (AssertionFailure ''There is no typed allocation recorded with this address'')) \<and>
   (typedAllocations st buf \<noteq> None \<longrightarrow>
      releaseTypedAllocation buf st
        = Inr (st\<lparr>typedAllocations := (typedAllocations st)(buf := None)\<rparr>) \<and>
      typedAllocations (projr (releaseTypedAllocation buf st)) buf = None \<and>
      (\<forall>a. a \<noteq> buf \<longrightarrow>
         typedAllocations (projr (releaseTypedAllocation buf st)) a = typedAllocations st a) \<and>
      allocator (projr (releaseTypedAllocation buf st)) = allocator st \<and>
      modifiedGlobals (projr (releaseTypedAllocation buf st)) = modifiedGlobals st)"
  by (auto simp: releaseTypedAllocation_def split: option.splits)

theorem releaseTypedAllocation_asserts_iff_unrecorded_witness:
  "isl (releaseTypedAllocation 100
     \<lparr>allocator = None, modifiedGlobals = (Map.empty :: string \<rightharpoonup> nat),
       typedAllocations =
         [200 \<mapsto> \<lparr>globalValue = None, allocType = Some PointerTy, size' = 4\<rparr>,
          300 \<mapsto> \<lparr>globalValue = None, allocType = Some (IntegerTy 1), size' = 1\<rparr>]\<rparr>) \<and>
   \<not> isl (releaseTypedAllocation 200
     \<lparr>allocator = None, modifiedGlobals = (Map.empty :: string \<rightharpoonup> nat),
       typedAllocations =
         [200 \<mapsto> \<lparr>globalValue = None, allocType = Some PointerTy, size' = 4\<rparr>,
          300 \<mapsto> \<lparr>globalValue = None, allocType = Some (IntegerTy 1), size' = 1\<rparr>]\<rparr>) \<and>
   typedAllocations (projr (releaseTypedAllocation 200
     \<lparr>allocator = None, modifiedGlobals = (Map.empty :: string \<rightharpoonup> nat),
       typedAllocations =
         [200 \<mapsto> \<lparr>globalValue = None, allocType = Some PointerTy, size' = 4\<rparr>,
          300 \<mapsto> \<lparr>globalValue = None, allocType = Some (IntegerTy 1), size' = 1\<rparr>]\<rparr>)) 200
     = None \<and>
   typedAllocations (projr (releaseTypedAllocation 200
     \<lparr>allocator = None, modifiedGlobals = (Map.empty :: string \<rightharpoonup> nat),
       typedAllocations =
         [200 \<mapsto> \<lparr>globalValue = None, allocType = Some PointerTy, size' = 4\<rparr>,
          300 \<mapsto> \<lparr>globalValue = None, allocType = Some (IntegerTy 1), size' = 1\<rparr>]\<rparr>)) 300
     = Some \<lparr>globalValue = None, allocType = Some (IntegerTy 1), size' = 1\<rparr>"
proof -
  let ?st = "\<lparr>allocator = None, modifiedGlobals = (Map.empty :: string \<rightharpoonup> nat),
       typedAllocations =
         [200 \<mapsto> \<lparr>globalValue = None, allocType = Some PointerTy, size' = 4\<rparr>,
          300 \<mapsto> \<lparr>globalValue = None, allocType = Some (IntegerTy 1), size' = 1\<rparr>]\<rparr>"
  note absent = releaseTypedAllocation_asserts_iff_unrecorded [of 100 ?st]
  note present = releaseTypedAllocation_asserts_iff_unrecorded [of 200 ?st]
  have n: "typedAllocations ?st 100 = None" and s: "typedAllocations ?st 200 \<noteq> None"
    by simp_all
  have c1: "isl (releaseTypedAllocation 100 ?st)" using absent n by blast
  have c2: "\<not> isl (releaseTypedAllocation 200 ?st)" using present s by blast
  have c3: "typedAllocations (projr (releaseTypedAllocation 200 ?st)) 200 = None"
    using present s by blast
  have "(300::nat) \<noteq> 200" by simp
  with present s have
    "typedAllocations (projr (releaseTypedAllocation 200 ?st)) 300 = typedAllocations ?st 300"
    by blast
  then have c4: "typedAllocations (projr (releaseTypedAllocation 200 ?st)) 300
                   = Some \<lparr>globalValue = None, allocType = Some (IntegerTy 1), size' = 1\<rparr>"
    by simp
  from c1 c2 c3 c4 show ?thesis by blast
qed

section \<open>Properties of the start function\<close>

lemma createCalls_order:
  "createCalls constructors block = Inr block' \<Longrightarrow>
   block' = block @ map (\<lambda>F. Call (getName F))
                      (filter (\<lambda>F. getSection F = ''asmjs'')
                         (List.map_filter constructorFunction constructors)) \<and>
   (\<forall>it \<in> set constructors. constructorFunction it \<noteq> None)"
proof (induction constructors arbitrary: block)
  case Nil
  then show ?case by (simp add: List.map_filter_simps)
next
  case (Cons it rest)
  from Cons.prems obtain cs F where
    it: "it = ConstantStruct cs" and el: "getAggregateElement cs 1 = Some (ConstantFunction F)"
    by (auto split: Constant.splits option.splits)
  have cf: "constructorFunction it = Some F"
    using it el by (simp add: constructorFunction_def)
  show ?case
  proof (cases "getSection F = ''asmjs''")
    case True
    with Cons.prems it el have "createCalls rest (block @ [Call (getName F)]) = Inr block'"
      by simp
    from Cons.IH [OF this] cf True show ?thesis
      by (simp add: List.map_filter_simps)
  next
    case False
    with Cons.prems it el have "createCalls rest block = Inr block'"
      by simp
    from Cons.IH [OF this] cf False show ?thesis
      by (simp add: List.map_filter_simps)
  qed
qed

lemma callees_calls: "callees (map (\<lambda>F. Call (getName F)) Fs @ [Ret]) = map getName Fs"
  by (induction Fs) (simp_all add: callees_def List.map_filter_simps)

text \<open>
  C6. Whenever the pass generates the start function (no loader is in use, the
  constructors list is not empty, and no assertion fails), the function it appends to
  the module calls the constructors in the order of the list: its body is one call per
  entry whose function is in the \<^verbatim>\<open>asmjs\<close> section, in list order, followed by the
  return. Every entry of the list then does register a function, so none is skipped
  for another reason.
\<close>

theorem start_calls_constructors_in_list_order:
  assumes "runOnModule WasmLoader ModuleGlobalConstructors M = Inr (changed, M')"
    and "WasmLoader = []"
    and "ModuleGlobalConstructors M = Some constructors"
    and "constructors \<noteq> []"
  shows "getFunctionList M' = getFunctionList M @ [last (getFunctionList M')] \<and>
         getName (last (getFunctionList M')) = ''_start'' \<and>
         instructions (last (getFunctionList M')) =
           map (\<lambda>F. Call (getName F))
             (filter (\<lambda>F. getSection F = ''asmjs'')
                (List.map_filter constructorFunction constructors)) @ [Ret] \<and>
         callees (instructions (last (getFunctionList M'))) =
           map getName
             (filter (\<lambda>F. getSection F = ''asmjs'')
                (List.map_filter constructorFunction constructors)) \<and>
         (\<forall>it \<in> set constructors. constructorFunction it \<noteq> None)"
proof -
  from assms obtain block node where
    calls: "createCalls constructors [] = Inr block" and
    M': "M' = M\<lparr>getFunctionList := getFunctionList M @
                  [\<lparr>getName = ''_start'', getSection = ''asmjs'', getLinkage = InternalLinkage,
                    getNumParams = 0, instructions = block @ [Ret]\<rparr>],
                jsexported_methods :=
                  Some (node @ [[\<lparr>getName = ''_start'', getSection = ''asmjs'',
                                  getLinkage = InternalLinkage, getNumParams = 0,
                                  instructions = block @ [Ret]\<rparr>]])\<rparr>"
    by (auto simp: runOnModule_def Let_def split: sum.splits option.splits)
  from createCalls_order [OF calls] have
    block: "block = map (\<lambda>F. Call (getName F))
                      (filter (\<lambda>F. getSection F = ''asmjs'')
                         (List.map_filter constructorFunction constructors))"
    and all: "\<forall>it \<in> set constructors. constructorFunction it \<noteq> None"
    by simp_all
  show ?thesis
    using all by (simp add: M' block callees_calls)
qed

theorem start_calls_constructors_in_list_order_witness:
  "callees (instructions (last (getFunctionList (snd (projr
     (runOnModule [] 
        (\<lambda>M. Some
           [ConstantStruct [ConstantInt 65535,
              ConstantFunction \<lparr>getName = ''ctorA'', getSection = ''asmjs'',
                 getLinkage = InternalLinkage, getNumParams = 0, instructions = [Ret]\<rparr>,
              ConstantPointerNull],
            ConstantStruct [ConstantInt 65535,
              ConstantFunction \<lparr>getName = ''ctorB'', getSection = [],
                 getLinkage = InternalLinkage, getNumParams = 0, instructions = [Ret]\<rparr>,
              ConstantPointerNull],
            ConstantStruct [ConstantInt 101,
              ConstantFunction \<lparr>getName = ''ctorC'', getSection = ''asmjs'',
                 getLinkage = InternalLinkage, getNumParams = 0, instructions = [Ret]\<rparr>,
              ConstantPointerNull]])
        \<lparr>getFunctionList = [], jsexported_methods = Some []\<rparr>))))))
   = [''ctorA'', ''ctorC'']"
proof -
  let ?cs = "[ConstantStruct [ConstantInt 65535,
              ConstantFunction \<lparr>getName = ''ctorA'', getSection = ''asmjs'',
                 getLinkage = InternalLinkage, getNumParams = 0, instructions = [Ret]\<rparr>,
              ConstantPointerNull],
            ConstantStruct [ConstantInt 65535,
              ConstantFunction \<lparr>getName = ''ctorB'', getSection = [],
                 getLinkage = InternalLinkage, getNumParams = 0, instructions = [Ret]\<rparr>,
              ConstantPointerNull],
            ConstantStruct [ConstantInt 101,
              ConstantFunction \<lparr>getName = ''ctorC'', getSection = ''asmjs'',
                 getLinkage = InternalLinkage, getNumParams = 0, instructions = [Ret]\<rparr>,
              ConstantPointerNull]]"
  let ?M = "\<lparr>getFunctionList = [], jsexported_methods = Some []\<rparr>"
  obtain M' where run: "runOnModule [] (\<lambda>M. Some ?cs) ?M = Inr (False, M')"
    by (simp add: runOnModule_def getAggregateElement_def Let_def)
  have ne: "?cs \<noteq> []" by simp
  from start_calls_constructors_in_list_order [OF run refl refl ne]
  have "callees (instructions (last (getFunctionList M'))) =
          map getName (filter (\<lambda>F. getSection F = ''asmjs'')
             (List.map_filter constructorFunction ?cs))"
    by blast
  then show ?thesis
    by (simp add: run constructorFunction_def getAggregateElement_def List.map_filter_simps)
qed

section \<open>Properties of the store recorder\<close>

lemma recordStore_facts:
  "set (StoreLog (recordStore Addr st)) = insert Addr (set (StoreLog st))"
  "distinct (StoreLog st) \<Longrightarrow> distinct (StoreLog (recordStore Addr st))"
  "take (length (StoreLog st)) (StoreLog (recordStore Addr st)) = StoreLog st"
  "length (StoreLog st) \<le> length (StoreLog (recordStore Addr st))"
  "modifiedGlobals (recordStore Addr st) = modifiedGlobals st"
  "typedAllocations (recordStore Addr st) = typedAllocations st"
  "allocator (recordStore Addr st) = allocator st"
  by (auto simp: recordStore_def)

lemma reportStores_recordStore:
  "StoreListener EE = Some recordStore \<Longrightarrow>
   set (StoreLog (reportStores EE addrs st)) = set (StoreLog st) \<union> set addrs \<and>
   (distinct (StoreLog st) \<longrightarrow> distinct (StoreLog (reportStores EE addrs st))) \<and>
   take (length (StoreLog st)) (StoreLog (reportStores EE addrs st)) = StoreLog st \<and>
   length (StoreLog st) \<le> length (StoreLog (reportStores EE addrs st)) \<and>
   modifiedGlobals (reportStores EE addrs st) = modifiedGlobals st \<and>
   typedAllocations (reportStores EE addrs st) = typedAllocations st \<and>
   allocator (reportStores EE addrs st) = allocator st"
proof (induction addrs arbitrary: st)
  case Nil
  show ?case by simp
next
  case (Cons Addr rest)
  let ?st1 = "recordStore Addr st"
  note IH = Cons.IH [OF Cons.prems, of ?st1]
  have step: "reportStores EE (Addr # rest) st = reportStores EE rest ?st1"
    using Cons.prems by simp
  have pre: "take (length (StoreLog st)) (StoreLog (reportStores EE rest ?st1)) = StoreLog st"
  proof -
    have "take (length (StoreLog st)) (StoreLog (reportStores EE rest ?st1)) =
            take (length (StoreLog st))
              (take (length (StoreLog ?st1)) (StoreLog (reportStores EE rest ?st1)))"
      using recordStore_facts(4) [of st Addr] by (simp add: min_def)
    also have "\<dots> = take (length (StoreLog st)) (StoreLog ?st1)"
      using IH by simp
    also have "\<dots> = StoreLog st"
      by (rule recordStore_facts(3))
    finally show ?thesis .
  qed
  have len: "length (StoreLog st) \<le> length (StoreLog (reportStores EE rest ?st1))"
    using IH recordStore_facts(4) [of st Addr] by linarith
  show ?case
    unfolding step using IH pre len by (auto simp: recordStore_facts)
qed

text \<open>
  C7. With \<open>recordStore\<close> installed as the engine's store listener, take any sequence
  of reported writes, repeats included. The log afterwards holds exactly the addresses
  it held before and the addresses written; if no address was in it twice before, none
  is afterwards; what was in the log stays where it was, the log only grows; and
  recording touches neither the modified globals nor the rest of the pass, so nothing
  is reconstructed while recording.
\<close>

theorem recordStore_log_is_a_growing_set:
  "set (StoreLog (reportStores (InstallStoreListener (Some recordStore) EE) addrs st))
     = set (StoreLog st) \<union> set addrs \<and>
   (distinct (StoreLog st) \<longrightarrow>
      distinct (StoreLog (reportStores (InstallStoreListener (Some recordStore) EE) addrs st))) \<and>
   take (length (StoreLog st))
     (StoreLog (reportStores (InstallStoreListener (Some recordStore) EE) addrs st))
     = StoreLog st \<and>
   length (StoreLog st)
     \<le> length (StoreLog (reportStores (InstallStoreListener (Some recordStore) EE) addrs st)) \<and>
   modifiedGlobals (reportStores (InstallStoreListener (Some recordStore) EE) addrs st)
     = modifiedGlobals st \<and>
   typedAllocations (reportStores (InstallStoreListener (Some recordStore) EE) addrs st)
     = typedAllocations st \<and>
   allocator (reportStores (InstallStoreListener (Some recordStore) EE) addrs st)
     = allocator st"
proof -
  have "StoreListener (InstallStoreListener (Some recordStore) EE) = Some recordStore"
    by (simp add: InstallStoreListener_def)
  from reportStores_recordStore [OF this] show ?thesis .
qed

theorem recordStore_log_is_a_growing_set_witness:
  "StoreLog (reportStores
      (InstallStoreListener (Some recordStore) \<lparr>StoreListener = None\<rparr>)
      [16, 20, 16, 100, 20]
      \<lparr>allocator = None, modifiedGlobals = (Map.empty :: string \<rightharpoonup> nat),
        typedAllocations = Map.empty, StoreLog = []\<rparr>)
   = [16, 20, 100] \<and>
   distinct (StoreLog (reportStores
      (InstallStoreListener (Some recordStore) \<lparr>StoreListener = None\<rparr>)
      [16, 20, 16, 100, 20]
      \<lparr>allocator = None, modifiedGlobals = (Map.empty :: string \<rightharpoonup> nat),
        typedAllocations = Map.empty, StoreLog = []\<rparr>))"
proof -
  let ?st = "\<lparr>allocator = None, modifiedGlobals = (Map.empty :: string \<rightharpoonup> nat),
              typedAllocations = Map.empty, StoreLog = []\<rparr>"
  have d: "distinct (StoreLog ?st)" by simp
  have v: "StoreLog (reportStores
             (InstallStoreListener (Some recordStore) \<lparr>StoreListener = None\<rparr>)
             [16, 20, 16, 100, 20] ?st) = [16, 20, 100]"
    by (simp add: InstallStoreListener_def recordStore_def)
  from recordStore_log_is_a_growing_set
         [of "\<lparr>StoreListener = None\<rparr>" "[16, 20, 16, 100, 20]" ?st] d
  have "distinct (StoreLog (reportStores
          (InstallStoreListener (Some recordStore) \<lparr>StoreListener = None\<rparr>)
          [16, 20, 16, 100, 20] ?st))"
    by blast
  with v show ?thesis by blast
qed

section \<open>Properties of the reconstruction\<close>




section \<open>Properties of the commit\<close>



















end
